theory Spec2Isabelle
  imports Complex_Main
begin

section \<open>Python strings\<close>

text \<open>
  A Python \<open>str\<close> is modelled as a \<open>string\<close> whose characters are the code points
  below 256, so \<open>length\<close> is Python's \<open>len\<close>. Python floats are modelled as exact
  rationals (no NaN, no infinity, no rounding); the literals \<open>0.2\<close>, \<open>0.01\<close>,
  \<open>60.0\<close> are the rationals they denote.
\<close>

definition py_isspace :: "char \<Rightarrow> bool" where
  \<comment> \<open>\<open>str.isspace\<close> on the code points below 256\<close>
  "py_isspace c =
     (let n = (of_char c :: nat)
      in (9 \<le> n \<and> n \<le> 13) \<or> (28 \<le> n \<and> n \<le> 32) \<or> n = 133 \<or> n = 160)"

definition strip :: "string \<Rightarrow> string" where
  \<comment> \<open>\<open>s.strip()\<close>\<close>
  "strip s = rev (dropWhile py_isspace (rev (dropWhile py_isspace s)))"

definition py_lower_char :: "char \<Rightarrow> char" where
  "py_lower_char c =
     (let n = (of_char c :: nat)
      in if (65 \<le> n \<and> n \<le> 90) \<or> (192 \<le> n \<and> n \<le> 222 \<and> n \<noteq> 215)
         then (case c of Char b0 b1 b2 b3 b4 b5 b6 b7 \<Rightarrow> Char b0 b1 b2 b3 b4 True b6 b7)
         else c)"

definition lower :: "string \<Rightarrow> string" where
  \<comment> \<open>\<open>s.lower()\<close>\<close>
  "lower s = map py_lower_char s"

fun starts_with :: "string \<Rightarrow> string \<Rightarrow> bool" where
  "starts_with [] s = True"
| "starts_with (p # ps) [] = False"
| "starts_with (p # ps) (c # cs) = (p = c \<and> starts_with ps cs)"

fun str_in :: "string \<Rightarrow> string \<Rightarrow> bool" where
  \<comment> \<open>\<open>sub in s\<close>\<close>
  "str_in sub [] = (sub = [])"
| "str_in sub (c # cs) = (starts_with sub (c # cs) \<or> str_in sub cs)"

fun join :: "string \<Rightarrow> string list \<Rightarrow> string" where
  \<comment> \<open>\<open>sep.join(parts)\<close>\<close>
  "join sep [] = []"
| "join sep [p] = p"
| "join sep (p # q # ps) = p @ sep @ join sep (q # ps)"

section \<open>Generation client: confidence heuristic\<close>

definition estimate_confidence :: "string \<Rightarrow> string \<Rightarrow> string \<times> rat" where
  \<comment> \<open>\<open>GeminiService._estimate_confidence\<close>\<close>
  "estimate_confidence answer_text context_text =
     (if strip answer_text = [] then (''low'', 2 / 10)
      else
        let len_score = min (of_nat (length answer_text) / 600) 1;
            context_factor = (if strip context_text = [] then 0 else 5 / 10);
            score = 3 / 10 + (5 / 10) * len_score + context_factor;
            score' = max 0 (min score 1);
            label = (if score' > 75 / 100 then ''high''
                     else if score' > 5 / 10 then ''medium'' else ''low'')
        in (label, score'))"

section \<open>Rate limiter\<close>

text \<open>
  The clock and the calls made on collaborators are the state of the world: \<open>time.time()\<close>
  reads \<open>clock\<close>, \<open>time.sleep(d)\<close> advances it by \<open>d\<close> (any further passing of time is
  an explicit parameter, see \<open>acquire_timed\<close>), and every call of
  \<open>RateLimiter.acquire\<close>, \<open>time.sleep\<close>, of the backend's \<open>generate_content\<close> and of
  the vector store's two searches is appended to \<open>trace\<close>, as a call-recording mock
  would do.
\<close>

datatype event =
    Acquire | Sleep rat | GenerateContent string
  | SearchWithScore string | SimilaritySearch string

record world =
  clock :: rat
  trace :: "event list"

datatype py_error = IndexError

definition time_sleep :: "rat \<Rightarrow> world \<Rightarrow> world" where
  "time_sleep d w = w\<lparr>clock := clock w + d, trace := trace w @ [Sleep d]\<rparr>"

record rate_limiter =
  max_per_minute :: int
  call_timestamps :: "rat list"

definition RateLimiter :: "int \<Rightarrow> rate_limiter" where
  \<comment> \<open>\<open>RateLimiter.__init__\<close>\<close>
  "RateLimiter m = \<lparr>max_per_minute = m, call_timestamps = []\<rparr>"

text \<open>
  \<open>acquire_timed\<close> is \<open>RateLimiter.acquire\<close> with the two things the source leaves to
  the platform as parameters. The first, \<open>fl\<close>, is the rounding of float arithmetic: the
  source computes \<open>now - t\<close>, \<open>60.0 - (now - t)\<close> and \<open>... + 0.01\<close> in doubles, and the
  model rounds the result of each operation, and the literal \<open>0.01\<close>, with \<open>fl\<close>. The
  second, \<open>lag\<close>, is the time that passes between the clock read at the start of the call
  and the clock read of line 36 beyond the time asked of \<open>time.sleep\<close>: oversleeping and
  the time the statements take. \<open>acquire\<close> is the instance with exact arithmetic and no lag;
  the generation client's theorems, which count calls, use it.
\<close>

fun drop_old :: "(rat \<Rightarrow> rat) \<Rightarrow> rat \<Rightarrow> rat list \<Rightarrow> rat list" where
  \<comment> \<open>the \<open>while ... popleft()\<close> loop of \<open>acquire\<close>\<close>
  "drop_old fl now [] = []"
| "drop_old fl now (t # ts) = (if fl (now - t) > 60 then drop_old fl now ts else t # ts)"

definition acquire_timed ::
  "(rat \<Rightarrow> rat) \<Rightarrow> rat \<Rightarrow> rate_limiter \<Rightarrow> world \<Rightarrow> py_error + (rate_limiter \<times> world)" where
  \<comment> \<open>\<open>RateLimiter.acquire\<close>; \<open>call_timestamps[0]\<close> on an empty deque raises\<close>
  "acquire_timed fl lag rl w0 =
     (let w = w0\<lparr>trace := trace w0 @ [Acquire]\<rparr>;
          now = clock w;
          ts = drop_old fl now (call_timestamps rl)
      in if int (length ts) \<ge> max_per_minute rl then
           (case ts of
              [] \<Rightarrow> Inl IndexError
            | t0 # _ \<Rightarrow>
                let sleep_for = fl (fl (60 - fl (now - t0)) + fl (1 / 100));
                    w' = (if sleep_for > 0 then time_sleep sleep_for w else w);
                    w'' = w'\<lparr>clock := clock w' + lag\<rparr>
                in Inr (rl\<lparr>call_timestamps := ts @ [clock w'']\<rparr>, w''))
         else (let w'' = w\<lparr>clock := clock w + lag\<rparr>
               in Inr (rl\<lparr>call_timestamps := ts @ [clock w'']\<rparr>, w'')))"

definition exact :: "rat \<Rightarrow> rat" where
  \<comment> \<open>arithmetic without rounding\<close>
  "exact x = x"

definition acquire :: "rate_limiter \<Rightarrow> world \<Rightarrow> py_error + (rate_limiter \<times> world)" where
  \<comment> \<open>\<open>RateLimiter.acquire\<close> on a clock that moves only in \<open>time.sleep\<close>, by exactly the
      time asked, with exact arithmetic\<close>
  "acquire rl w0 = acquire_timed exact 0 rl w0"

section \<open>Generation client: prompt, retries, fallback\<close>

definition guidelines :: string where
  "guidelines =
     ''You are an academic assistant for the MCA (Master of Computer Applications) syllabus.\<newline>'' @
     ''Answer concisely and accurately using ONLY the provided context.\<newline>'' @
     ''If the context is insufficient, say you are not sure and suggest where to look.\<newline>'' @
     ''\<newline>'' @
     ''Specialized guidance you support:\<newline>'' @
     ''- Course structure queries: semesters, subjects, modules, credit distribution.\<newline>'' @
     ''- Prerequisite questions: assumed knowledge, required prior courses, skills.\<newline>'' @
     ''- Grading system explanations: internal assessment, end-semester exams, weightage.\<newline>'' @
     ''- Career guidance: roles and pathways aligned with syllabus topics.\<newline>'' @
     ''\<newline>'' @
     ''Formatting:\<newline>'' @
     ''- Provide a direct answer first.\<newline>'' @
     ''- If relevant, add a short bullet list of key points.\<newline>'' @
     ''- End with a one-line confidence score: Confidence: <low|medium|high>.\<newline>''"

definition build_prompt :: "string \<Rightarrow> string \<Rightarrow> string" where
  \<comment> \<open>\<open>GeminiService._build_prompt\<close>\<close>
  "build_prompt question context_text =
     guidelines @ ''\<newline>'' @ ''Context:\<newline>'' @ context_text @ ''\<newline>'' @ ''\<newline>'' @
     ''Question: '' @ question @ ''\<newline>'' @ ''Answer:''"

datatype outcome =
    Raises string            \<comment> \<open>the backend raised; the string is \<open>str(exc)\<close>\<close>
  | Response "string option" \<comment> \<open>the response; its \<open>text\<close> attribute, if any\<close>

type_synonym backend = "nat \<Rightarrow> string \<Rightarrow> outcome"
  \<comment> \<open>what \<open>model.generate_content(prompt)\<close> does at the given attempt of one call\<close>

record gen_result =
  answer :: string
  confidence :: rat

record gemini_service =
  limiter :: rate_limiter  \<comment> \<open>\<open>self.rate_limiter\<close>\<close>

datatype gen_context = CtxStr string | CtxList "string list"

definition is_transient :: "string \<Rightarrow> bool" where
  \<comment> \<open>the retry test on \<open>str(exc).lower()\<close>\<close>
  "is_transient exc =
     (let msg = lower exc
      in str_in ''429'' msg \<or> str_in ''rate'' msg \<or> str_in ''temporarily'' msg
         \<or> str_in ''deadline'' msg \<or> str_in ''timeout'' msg)"

definition format_response :: "string option \<Rightarrow> string \<Rightarrow> gen_result" where
  \<comment> \<open>the body of the \<open>try\<close> after \<open>generate_content\<close> returned\<close>
  "format_response resp_text context_text =
     (let text = (case resp_text of None \<Rightarrow> [] | Some t \<Rightarrow> t);
          (conf_label, conf_score) = estimate_confidence text context_text;
          formatted = strip text;
          formatted' = (if \<not> str_in ''Confidence:'' formatted
                        then formatted @ ''\<newline>\<newline>Confidence: '' @ conf_label
                        else formatted)
      in \<lparr>answer = formatted', confidence = conf_score\<rparr>)"

fun retry_loop ::
  "backend \<Rightarrow> string \<Rightarrow> string \<Rightarrow> nat \<Rightarrow> nat \<Rightarrow> rat \<Rightarrow> world \<Rightarrow> gen_result option \<times> world" where
  \<comment> \<open>\<open>for attempt in range(1, max_attempts + 1)\<close>; the fourth argument counts the
      attempts left, \<open>None\<close> is leaving the loop without a \<open>return\<close>\<close>
  "retry_loop be prompt context_text 0 attempt delay w = (None, w)"
| "retry_loop be prompt context_text (Suc left) attempt delay w =
     (let w1 = w\<lparr>trace := trace w @ [GenerateContent prompt]\<rparr>
      in case be attempt prompt of
           Response t \<Rightarrow> (Some (format_response t context_text), w1)
         | Raises exc \<Rightarrow>
             if is_transient exc
             then retry_loop be prompt context_text left (attempt + 1) (delay * 2)
                    (time_sleep delay w1)
             else (None, w1))"

definition fallback :: string where
  "fallback = ''I'm not fully confident based on the provided context. Please provide more details or relevant syllabus excerpts.''"

definition fallback_result :: gen_result where
  "fallback_result = \<lparr>answer = fallback @ ''\<newline>\<newline>Confidence: low'', confidence = 2 / 10\<rparr>"

definition generate_answer ::
  "gemini_service \<Rightarrow> backend \<Rightarrow> string \<Rightarrow> gen_context \<Rightarrow> world
     \<Rightarrow> py_error + (gen_result \<times> gemini_service \<times> world)" where
  \<comment> \<open>\<open>GeminiService.generate_answer\<close>\<close>
  "generate_answer gs be question ctx w =
     (let context_text = (case ctx of CtxStr s \<Rightarrow> s | CtxList ss \<Rightarrow> join ''\<newline>\<newline>'' ss);
          prompt = build_prompt question context_text
      in case acquire (limiter gs) w of
           Inl e \<Rightarrow> Inl e
         | Inr (rl, w1) \<Rightarrow>
             (case retry_loop be prompt context_text 3 1 1 w1 of
                (Some r, w2) \<Rightarrow> Inr (r, gs\<lparr>limiter := rl\<rparr>, w2)
              | (None, w2) \<Rightarrow> Inr (fallback_result, gs\<lparr>limiter := rl\<rparr>, w2)))"

definition count_acquire :: "event list \<Rightarrow> nat" where
  "count_acquire evs = length (filter (\<lambda>e. e = Acquire) evs)"

definition count_backend :: "event list \<Rightarrow> nat" where
  "count_backend evs = length (filter (\<lambda>e. case e of GenerateContent _ \<Rightarrow> True | _ \<Rightarrow> False) evs)"

section \<open>Session store\<close>

text \<open>
  \<open>SESSIONS\<close> is a dict from session id to the list of its messages, kept as an
  association list in insertion order. Of a message only the \<open>ts\<close> key matters to
  pruning (field \<open>msg_ts\<close>); \<open>None\<close> is a message without that key.
\<close>

record message =
  msg_ts :: "rat option"
  msg_question :: string
  msg_answer :: string

type_synonym sessions = "(string \<times> message list) list"

definition SESSION_TTL_SECONDS :: rat where
  "SESSION_TTL_SECONDS = 60 * 60 * 24"

fun dict_set :: "'k \<Rightarrow> 'v \<Rightarrow> ('k \<times> 'v) list \<Rightarrow> ('k \<times> 'v) list" where
  \<comment> \<open>\<open>d[k] = v\<close>: an existing key keeps its position, a new key goes last\<close>
  "dict_set k v [] = [(k, v)]"
| "dict_set k v ((k', v') # d) = (if k = k' then (k, v) # d else (k', v') # dict_set k v d)"

definition dict_del :: "'k \<Rightarrow> ('k \<times> 'v) list \<Rightarrow> ('k \<times> 'v) list" where
  \<comment> \<open>\<open>del d[k]\<close> inside \<open>try ... except: pass\<close>\<close>
  "dict_del k d = filter (\<lambda>(k', v). k' \<noteq> k) d"

fun max_default :: "rat list \<Rightarrow> rat \<Rightarrow> rat" where
  \<comment> \<open>\<open>max(xs, default=d)\<close>\<close>
  "max_default [] d = d"
| "max_default (x # xs) d = fold max xs x"

definition get_ts :: "message \<Rightarrow> rat" where
  \<comment> \<open>\<open>m.get("ts", 0.0)\<close>\<close>
  "get_ts m = (case msg_ts m of None \<Rightarrow> 0 | Some t \<Rightarrow> t)"

definition prune_sessions :: "rat \<Rightarrow> sessions \<Rightarrow> sessions" where
  \<comment> \<open>\<open>_prune_sessions\<close>, with \<open>now = time.time()\<close>\<close>
  "prune_sessions now ss =
     (let to_delete =
            map fst (filter (\<lambda>(sid, msgs).
                        now - max_default (map get_ts msgs) 0 > SESSION_TTL_SECONDS) ss)
      in fold dict_del to_delete ss)"

datatype http_error = NotFound

definition create_session :: "rat \<Rightarrow> string \<Rightarrow> sessions \<Rightarrow> string \<times> sessions" where
  \<comment> \<open>\<open>POST /chat/sessions\<close>; the second argument is the fresh \<open>uuid4\<close>\<close>
  "create_session now session_id ss = (session_id, dict_set session_id [] (prune_sessions now ss))"

definition history :: "rat \<Rightarrow> string \<Rightarrow> sessions \<Rightarrow> (http_error + message list) \<times> sessions" where
  \<comment> \<open>\<open>GET /chat/history\<close>\<close>
  "history now session_id ss =
     (let ss' = prune_sessions now ss
      in case map_of ss' session_id of
           None \<Rightarrow> (Inl NotFound, ss')
         | Some msgs \<Rightarrow> (Inr msgs, ss'))"

definition list_sessions :: "rat \<Rightarrow> sessions \<Rightarrow> (string \<times> nat \<times> rat) list \<times> sessions" where
  \<comment> \<open>\<open>GET /chat/sessions\<close>: here an empty session counts as updated now\<close>
  "list_sessions now ss =
     (let ss' = prune_sessions now ss
      in (map (\<lambda>(sid, msgs). (sid, length msgs, max_default (map get_ts msgs) now)) ss', ss'))"

section \<open>Values of metadata dicts and their rendering\<close>

datatype pyval = PNone | PStr string | PInt int

type_synonym metadata = "string \<rightharpoonup> pyval"

definition truthy :: "pyval \<Rightarrow> bool" where
  "truthy v = (case v of PNone \<Rightarrow> False | PStr s \<Rightarrow> s \<noteq> [] | PInt i \<Rightarrow> i \<noteq> 0)"

definition py_or :: "pyval \<Rightarrow> pyval \<Rightarrow> pyval" where
  \<comment> \<open>\<open>a or b\<close>\<close>
  "py_or a b = (if truthy a then a else b)"

definition dict_get :: "metadata \<Rightarrow> string \<Rightarrow> pyval" where
  \<comment> \<open>\<open>meta.get(k)\<close>\<close>
  "dict_get m k = (case m k of None \<Rightarrow> PNone | Some v \<Rightarrow> v)"

definition digit_char :: "nat \<Rightarrow> char" where
  "digit_char d = ''0123456789'' ! (d mod 10)"

fun str_nat :: "nat \<Rightarrow> string" where
  "str_nat n = (if n < 10 then [digit_char n] else str_nat (n div 10) @ [digit_char (n mod 10)])"

definition str_int :: "int \<Rightarrow> string" where
  "str_int i = (if i < 0 then ''-'' @ str_nat (nat (- i)) else str_nat (nat i))"

definition py_str :: "pyval \<Rightarrow> string" where
  \<comment> \<open>how an f-string renders the value\<close>
  "py_str v = (case v of PNone \<Rightarrow> ''None'' | PStr s \<Rightarrow> s | PInt i \<Rightarrow> str_int i)"

definition round_half_even :: "rat \<Rightarrow> int" where
  "round_half_even x =
     (let q = \<lfloor>x\<rfloor>; f = x - of_int q
      in if f < 1 / 2 then q else if f > 1 / 2 then q + 1 else if even q then q else q + 1)"

definition format_4f :: "rat \<Rightarrow> string" where
  \<comment> \<open>\<open>f"{score:.4f}"\<close> on an exact rational\<close>
  "format_4f r =
     (let n = nat (round_half_even (\<bar>r\<bar> * 10000));
          frac = n mod 10000
      in (if r < 0 then ''-'' else []) @ str_nat (n div 10000) @ ''.'' @
         [digit_char (frac div 1000), digit_char (frac div 100), digit_char (frac div 10),
          digit_char frac])"

section \<open>Context packer\<close>

text \<open>
  A retrieved chunk is the tuple \<open>(score, content, metadata)\<close>. The SHA-1 digest of
  \<open>_hash_text\<close> is a parameter \<open>hash_text\<close> of the packer: the packer only compares
  digests for equality.
\<close>

type_synonym chunk = "rat \<times> string \<times> metadata"

record analysis =
  semesters :: "string list"
  focus :: string

record source =
  index :: nat
  name :: pyval
  page :: pyval
  score :: rat

record pack_state =
  context_parts :: "string list"
  sources :: "source list"
  total_chars :: nat

definition generate_mca_context_prompt :: string where
  "generate_mca_context_prompt =
     ''MCA domain context. Prioritize: course structure (semesters, subjects, modules, credits), '' @
     ''prerequisites (skills, prior courses), grading (internal assessment, exams, weightage), '' @
     ''and career guidance (roles aligned to syllabus topics). Extract concise, factual statements. '' @
     ''Prefer the most relevant and recent syllabus details. Include brief bullet lists for enumerations.''"

fun replace :: "string \<Rightarrow> string \<Rightarrow> string \<Rightarrow> string" where
  \<comment> \<open>\<open>s.replace(old, new)\<close> for a non-empty \<open>old\<close> (the source never passes an empty one)\<close>
  "replace old new [] = []"
| "replace old new (c # cs) =
     (if old \<noteq> [] \<and> starts_with old (c # cs)
      then new @ replace old new (drop (length old - 1) cs)
      else c # replace old new cs)"

definition dedup_step :: "(string \<Rightarrow> 'h) \<Rightarrow> chunk \<Rightarrow> ('h \<times> chunk) list \<Rightarrow> ('h \<times> chunk) list" where
  \<comment> \<open>one round of the deduplication loop\<close>
  "dedup_step hash_text c by_hash =
     (let h = hash_text (fst (snd c))
      in case map_of by_hash h of
           None \<Rightarrow> dict_set h c by_hash
         | Some old \<Rightarrow> if fst c < fst old then dict_set h c by_hash else by_hash)"

definition dedup :: "(string \<Rightarrow> 'h) \<Rightarrow> chunk list \<Rightarrow> ('h \<times> chunk) list" where
  "dedup hash_text retrieved = fold (dedup_step hash_text) retrieved []"

definition sorted_items :: "(string \<Rightarrow> 'h) \<Rightarrow> chunk list \<Rightarrow> chunk list" where
  \<comment> \<open>\<open>sorted(by_hash.values(), key=lambda x: x[0])\<close>, a stable sort\<close>
  "sorted_items hash_text retrieved = sort_key fst (map snd (dedup hash_text retrieved))"

definition enumerate1 :: "'a list \<Rightarrow> (nat \<times> 'a) list" where
  \<comment> \<open>\<open>enumerate(xs, start=1)\<close>\<close>
  "enumerate1 xs = zip [1 ..< Suc (length xs)] xs"

definition preamble :: "analysis \<Rightarrow> string" where
  \<comment> \<open>the first element of \<open>context_parts\<close>\<close>
  "preamble an =
     ''Guidance: '' @ generate_mca_context_prompt @ ''\<newline>Focus: '' @ focus an @
     '' | Semesters: '' @ join '', '' (if semesters an = [] then [''all''] else semesters an) @
     ''\<newline>''"

definition context_mentions_semester :: "analysis \<Rightarrow> string \<Rightarrow> bool" where
  "context_mentions_semester an text =
     (let targets = semesters an
      in if targets = [] then True
         else let text_lower = lower text
              in list_ex (\<lambda>sem. str_in (strip (replace ''sem'' [] sem)) text_lower) targets)"

definition chunk_name :: "metadata \<Rightarrow> pyval" where
  \<comment> \<open>\<open>meta.get("source") or meta.get("file_path") or "document"\<close>\<close>
  "chunk_name meta =
     py_or (dict_get meta ''source'') (py_or (dict_get meta ''file_path'') (PStr ''document''))"

definition chunk_page :: "metadata \<Rightarrow> pyval" where
  \<comment> \<open>\<open>meta.get("page") or meta.get("page_number") or meta.get("page_index")\<close>\<close>
  "chunk_page meta =
     py_or (dict_get meta ''page'')
       (py_or (dict_get meta ''page_number'') (dict_get meta ''page_index''))"

definition segment_of :: "nat \<Rightarrow> chunk \<Rightarrow> string" where
  \<comment> \<open>the citation header and the chunk text, as \<open>try_append\<close> renders them\<close>
  "segment_of idx c =
     (case c of (sc, content, meta) \<Rightarrow>
        let header = ''['' @ str_nat idx @ ''] Source: '' @ py_str (chunk_name meta);
            header' = (if chunk_page meta \<noteq> PNone
                       then header @ '', page '' @ py_str (chunk_page meta) else header);
            header'' = header' @ '' (score: '' @ format_4f sc @ '')''
        in header'' @ ''\<newline>'' @ content @ ''\<newline>'')"

definition source_of :: "nat \<Rightarrow> chunk \<Rightarrow> source" where
  \<comment> \<open>the dict appended to \<open>sources\<close>\<close>
  "source_of idx c =
     (case c of (sc, content, meta) \<Rightarrow>
        \<lparr>index = idx, name = chunk_name meta, page = chunk_page meta, score = sc\<rparr>)"

definition cited_segment :: "chunk list \<Rightarrow> source \<Rightarrow> string" where
  \<comment> \<open>the segment that \<open>try_append\<close> renders for the chunk at the rank a source's index names\<close>
  "cited_segment items s = segment_of (index s) (items ! (index s - 1))"

definition try_append :: "int \<Rightarrow> nat \<Rightarrow> chunk \<Rightarrow> pack_state \<Rightarrow> bool \<times> pack_state" where
  "try_append max_context_chars idx c st =
     (let segment = segment_of idx c
      in if int (total_chars st + length segment) > max_context_chars then (False, st)
         else (True, st\<lparr>context_parts := context_parts st @ [segment],
                        total_chars := total_chars st + length segment,
                        sources := sources st @ [source_of idx c]\<rparr>))"

fun pack_loop ::
  "int \<Rightarrow> analysis \<Rightarrow> bool \<Rightarrow> (nat \<times> chunk) list \<Rightarrow> pack_state \<Rightarrow> pack_state" where
  \<comment> \<open>both \<open>for idx, (score, content, meta) in enumerate(sorted_items, start=1)\<close> loops;
      the flag says whether the semester filter of the first loop is in force\<close>
  "pack_loop mx an use_filter [] st = st"
| "pack_loop mx an use_filter ((idx, c) # rest) st =
     (if use_filter \<and> \<not> context_mentions_semester an (fst (snd c))
      then pack_loop mx an use_filter rest st
      else case try_append mx idx c st of
             (False, _) \<Rightarrow> st
           | (True, st') \<Rightarrow> pack_loop mx an use_filter rest st')"

definition doc_counts :: "source list \<Rightarrow> (pyval \<times> nat) list" where
  "doc_counts srcs =
     fold (\<lambda>src dc. dict_set (name src)
                       ((case map_of dc (name src) of None \<Rightarrow> 0 | Some n \<Rightarrow> n) + 1) dc)
          srcs []"

definition summary_text :: "source list \<Rightarrow> string" where
  "summary_text srcs =
     ''Document coverage:\<newline>'' @
     join ''\<newline>'' (map (\<lambda>(nm, count). ''- '' @ py_str nm @ '': '' @ str_nat count @
                                       '' context blocks'') (doc_counts srcs)) @
     ''\<newline>''"

definition pack :: "int \<Rightarrow> analysis \<Rightarrow> chunk list \<Rightarrow> pack_state" where
  \<comment> \<open>\<open>_build_context\<close> from the preamble to the summary, on the sorted items\<close>
  "pack mx an items =
     (let st0 = \<lparr>context_parts = [preamble an], sources = [],
                 total_chars = length (preamble an)\<rparr>;
          applied_filter = (semesters an \<noteq> []);
          st1 = pack_loop mx an applied_filter (enumerate1 items) st0;
          st2 = (if applied_filter \<and> sources st1 = []
                 then pack_loop mx an False (enumerate1 items) st1 else st1)
      in if sources st2 \<noteq> [] \<and>
            int (total_chars st2 + length (summary_text (sources st2))) \<le> mx
         then st2\<lparr>context_parts := context_parts st2 @ [summary_text (sources st2)]\<rparr>
         else st2)"

definition build_context ::
  "(string \<Rightarrow> 'h) \<Rightarrow> int \<Rightarrow> chunk list \<Rightarrow> analysis \<Rightarrow> string \<times> source list" where
  \<comment> \<open>\<open>EnhancedRAGService._build_context\<close>; the second argument is \<open>self.max_context_chars\<close>\<close>
  "build_context hash_text max_context_chars retrieved an =
     (if retrieved = [] then ([], [])
      else let st = pack max_context_chars an (sorted_items hash_text retrieved)
           in (strip (join ''\<newline>'' (context_parts st)), sources st))"

section \<open>Query analysis, expansion and retrieval\<close>

definition match_sem :: "string \<Rightarrow> nat option" where
  \<comment> \<open>the length of a match of \<open>sem(?:ester)?\s*[1-8]\<close> (ignoring case) at the start
      of the string, if there is one\<close>
  "match_sem s =
     (if starts_with ''sem'' (lower s) then
        let r1 = drop 3 s;
            n1 = (if starts_with ''ester'' (lower r1) then 5 else 0);
            r2 = drop n1 r1;
            n2 = length (takeWhile py_isspace r2)
        in case drop n2 r2 of
             [] \<Rightarrow> None
           | d # _ \<Rightarrow> if d \<in> set ''12345678'' then Some (3 + n1 + n2 + 1) else None
      else None)"

fun findall_sem :: "string \<Rightarrow> string list" where
  \<comment> \<open>\<open>semester_pattern.findall\<close>: leftmost matches, not overlapping\<close>
  "findall_sem [] = []"
| "findall_sem (c # cs) =
     (case match_sem (c # cs) of
        Some n \<Rightarrow> take n (c # cs) # findall_sem (drop (n - 1) cs)
      | None \<Rightarrow> findall_sem cs)"

definition focus_keywords :: "(string \<times> string list) list" where
  "focus_keywords =
     [(''credits'', [''credit'', ''ects'']),
      (''prerequisite'', [''prerequisite'', ''prereq'', ''eligibility'']),
      (''grading'', [''grade'', ''grading'', ''assessment'', ''exam'']),
      (''career'', [''career'', ''job'', ''role'']),
      (''project'', [''project'', ''capstone''])]"

fun first_focus :: "string \<Rightarrow> (string \<times> string list) list \<Rightarrow> string" where
  "first_focus low [] = ''general''"
| "first_focus low ((label, keywords) # rest) =
     (if list_ex (\<lambda>word. str_in word low) keywords then label else first_focus low rest)"

definition analyze_question :: "string \<Rightarrow> analysis" where
  \<comment> \<open>\<open>EnhancedRAGService._analyze_question\<close>\<close>
  "analyze_question q =
     (let low = lower q
      in \<lparr>semesters = map (\<lambda>m. replace ''semester'' ''sem'' (replace '' '' [] (strip m)))
                           (findall_sem low),
          focus = first_focus low focus_keywords\<rparr>)"

definition set_add :: "'a \<Rightarrow> 'a list \<Rightarrow> 'a list" where
  "set_add x xs = (if x \<in> set xs then xs else xs @ [x])"

definition expand_query :: "string \<Rightarrow> string list" where
  \<comment> \<open>\<open>EnhancedRAGService._expand_query\<close>. Python leaves the order of \<open>list(variants)\<close>
      open; the model lists the variants in the order they were added.\<close>
  "expand_query qn =
     (let q = strip qn; low = lower q;
          v1 = (if str_in ''credit'' low
                then set_add (q @ '' credit distribution per semester'') [q] else [q]);
          v2 = (if str_in ''prereq'' low \<or> str_in ''prerequisite'' low \<or> str_in ''eligibility'' low
                then set_add (q @ '' prerequisites and assumed knowledge'') v1 else v1);
          v3 = (if str_in ''grade'' low \<or> str_in ''assessment'' low \<or> str_in ''exam'' low
                then set_add (q @ '' grading system internal assessment and end-semester weightage'') v2
                else v2);
          v4 = (if str_in ''syllabus'' low \<or> str_in ''course'' low \<or> str_in ''semester'' low
                then set_add (q @ '' MCA course structure subjects and modules'') v3 else v3);
          v5 = (if str_in ''career'' low \<or> str_in ''job'' low \<or> str_in ''role'' low
                then set_add (q @ '' career pathways aligned to syllabus topics'') v4 else v4)
      in v5)"

text \<open>
  The vector store is a collaborator: its two searches are parameters, \<open>None\<close> when the
  call raises. A document is its \<open>page_content\<close> and its \<open>metadata\<close>.
\<close>

type_synonym doc = "string \<times> metadata"

record vectorstore =
  similarity_search_with_score :: "string \<Rightarrow> int \<Rightarrow> (doc \<times> rat) list option"
  similarity_search :: "string \<Rightarrow> int \<Rightarrow> doc list option"

fun retrieve_loop ::
  "vectorstore \<Rightarrow> int \<Rightarrow> string list \<Rightarrow> chunk list \<Rightarrow> world \<Rightarrow> chunk list \<times> world" where
  \<comment> \<open>\<open>for variant in self._expand_query(question)\<close>; a failure of the plain search
      leaves the loop through the outer \<open>except\<close> with the results so far\<close>
  "retrieve_loop vs k [] results w = (results, w)"
| "retrieve_loop vs k (variant # rest) results w =
     (let w1 = w\<lparr>trace := trace w @ [SearchWithScore variant]\<rparr>
      in case similarity_search_with_score vs variant k of
           Some with_scores \<Rightarrow>
             retrieve_loop vs k rest
               (results @ map (\<lambda>(d, sc). (sc, fst d, snd d)) with_scores) w1
         | None \<Rightarrow>
             (let w2 = w1\<lparr>trace := trace w1 @ [SimilaritySearch variant]\<rparr>
              in case similarity_search vs variant k of
                   Some docs \<Rightarrow>
                     retrieve_loop vs k rest (results @ map (\<lambda>d. (1, fst d, snd d)) docs) w2
                 | None \<Rightarrow> (results, w2)))"

definition retrieve_with_sources ::
  "vectorstore \<Rightarrow> int \<Rightarrow> string \<Rightarrow> world \<Rightarrow> chunk list \<times> world" where
  \<comment> \<open>\<open>EnhancedRAGService._retrieve_with_sources\<close>; the second argument is \<open>per_variant_k\<close>\<close>
  "retrieve_with_sources vs k qn w = retrieve_loop vs k (expand_query qn) [] w"

section \<open>Answer orchestrator\<close>

text \<open>
  \<open>ask_question\<close> returns a dict; the model keeps it as the list of its keys and values,
  so that a key the source leaves out is absent from the model too.
\<close>

datatype rval = RStr string | RFloat rat | RSources "source list"

type_synonym response = "(string \<times> rval) list"

record rag_service =
  gen :: gemini_service
  max_context_chars :: int
  per_variant_k :: int

definition generate_follow_up :: "analysis \<Rightarrow> source list \<Rightarrow> string" where
  \<comment> \<open>\<open>EnhancedRAGService._generate_follow_up\<close>\<close>
  "generate_follow_up an srcs =
     (if focus an = ''credits'' then ''Would you like a semester-by-semester credit comparison?''
      else if focus an = ''prerequisite''
        then ''Should I list bridge courses to meet the prerequisites?''
      else if focus an = ''career''
        then ''Do you want recommendations for internships aligned with these courses?''
      else if srcs \<noteq> [] then ''Need more detail from any of the cited documents?''
      else ''Would you like to explore related MCA modules?'')"

definition confidence_explanation :: "rat \<Rightarrow> nat \<Rightarrow> nat \<Rightarrow> string" where
  \<comment> \<open>\<open>EnhancedRAGService._confidence_explanation\<close>\<close>
  "confidence_explanation conf context_count source_count =
     (if conf > 75 / 100
      then ''High confidence based on '' @ str_nat context_count @ '' context blocks across '' @
           str_nat source_count @ '' sources.''
      else if conf > 5 / 10
      then ''Moderate confidence: '' @ str_nat context_count @ '' context blocks from '' @
           str_nat source_count @ '' sources.''
      else ''Low confidence because only '' @ str_nat context_count @
           '' context blocks were relevant.'')"

fun split_char :: "char \<Rightarrow> string \<Rightarrow> string list" where
  \<comment> \<open>\<open>s.split(sep)\<close> for a separator of one character\<close>
  "split_char sep [] = [[]]"
| "split_char sep (c # cs) =
     (if c = sep then [] # split_char sep cs
      else case split_char sep cs of
             [] \<Rightarrow> [[c]]
           | p # ps \<Rightarrow> (c # p) # ps)"

definition post_format :: "string \<Rightarrow> string" where
  \<comment> \<open>the bullet-list pass of \<open>ask_question\<close>\<close>
  "post_format ans =
     (if \<not> str_in ''- '' ans \<and> str_in '';'' ans then
        let parts = filter (\<lambda>p. p \<noteq> []) (map strip (split_char (CHR '';'') ans))
        in if length parts \<ge> 3
           then hd parts @ ''\<newline>'' @ join ''\<newline>'' (map (\<lambda>p. ''- '' @ p) (tl parts))
           else ans
      else ans)"

definition instruction_block :: string where
  "instruction_block =
     ''Formatting instructions:\<newline>'' @
     ''- Start with a concise answer paragraph.\<newline>'' @
     ''- Use bullet lists for modules/credits/prereqs.\<newline>'' @
     ''- Mention semesters explicitly if available.\<newline>'' @
     ''- Provide a short concluding recommendation.''"

definition empty_question_response :: response where
  "empty_question_response =
     [(''answer'', RStr ''Please provide a question related to the MCA syllabus.''),
      (''sources'', RSources []),
      (''confidence'', RFloat 0)]"

definition insufficient_context_response :: response where
  "insufficient_context_response =
     [(''answer'', RStr ''I don't know based on the available syllabus context. Please provide more details or upload relevant documents.''),
      (''sources'', RSources []),
      (''confidence'', RFloat (2 / 10)),
      (''confidence_explanation'', RStr ''No relevant syllabus passages were retrieved.''),
      (''follow_up'', RStr ''Upload a syllabus PDF for the semester you're interested in.'')]"

definition ask_question ::
  "(string \<Rightarrow> 'h) \<Rightarrow> rag_service \<Rightarrow> vectorstore \<Rightarrow> backend \<Rightarrow> string \<Rightarrow> world
     \<Rightarrow> py_error + (response \<times> rag_service \<times> world)" where
  \<comment> \<open>\<open>EnhancedRAGService.ask_question\<close>. Lines 210 and 211 of the source stand at the same
      indentation; the \<open>return\<close> of lines 211 to 217 is read as the body of the \<open>if\<close>
      of line 210.\<close>
  "ask_question hash_text svc vs be qn w =
     (let q = strip qn
      in if q = [] then Inr (empty_question_response, svc, w)
         else
           let an = analyze_question q;
               (retrieved, w1) = retrieve_with_sources vs (per_variant_k svc) q w;
               (context_text, srcs) = build_context hash_text (max_context_chars svc) retrieved an
           in if context_text = [] \<or> srcs = [] then Inr (insufficient_context_response, svc, w1)
              else
                (case generate_answer (gen svc) be q
                        (CtxStr (context_text @ ''\<newline>\<newline>'' @ instruction_block)) w1 of
                   Inl e \<Rightarrow> Inl e
                 | Inr (r, gs, w2) \<Rightarrow>
                     let ans = post_format (strip (answer r));
                         conf = confidence r;
                         follow_up = generate_follow_up an srcs;
                         unique_sources = length (remdups (map name srcs));
                         confidence_expl = confidence_explanation conf (length srcs) unique_sources
                     in Inr ([(''answer'', RStr ans),
                              (''sources'', RSources srcs),
                              (''confidence'', RFloat conf),
                              (''confidence_explanation'', RStr confidence_expl),
                              (''follow_up'', RStr follow_up)],
                             svc\<lparr>gen := gs\<rparr>, w2)))"

definition count_retrieval :: "event list \<Rightarrow> nat" where
  "count_retrieval evs =
     length (filter (\<lambda>e. case e of SearchWithScore _ \<Rightarrow> True | SimilaritySearch _ \<Rightarrow> True
                         | _ \<Rightarrow> False) evs)"

section \<open>Repeated acquisitions and sample inputs\<close>






definition world0 :: world where
  "world0 = \<lparr>clock = 0, trace = []\<rparr>"


definition gemini0 :: gemini_service where
  \<comment> \<open>\<open>GeminiService()\<close> with the default \<open>max_per_minute=60\<close>\<close>
  "gemini0 = \<lparr>limiter = RateLimiter 60\<rparr>"

definition rag0 :: rag_service where
  \<comment> \<open>\<open>EnhancedRAGService(pdf, gen)\<close> with the default budget and \<open>per_variant_k\<close>\<close>
  "rag0 = \<lparr>gen = gemini0, max_context_chars = 6000, per_variant_k = 4\<rparr>"

definition always_rate_limited :: backend where
  "always_rate_limited attempt prompt = Raises ''429 Too Many Requests''"


definition empty_store :: vectorstore where
  "empty_store =
     \<lparr>similarity_search_with_score = (\<lambda>q k. Some []), similarity_search = (\<lambda>q k. Some [])\<rparr>"

definition content_key :: "string \<Rightarrow> string" where
  \<comment> \<open>an injective stand-in for the digest, for running the packer on sample chunks
      whose texts differ\<close>
  "content_key s = s"

definition general_analysis :: analysis where
  "general_analysis = \<lparr>semesters = [], focus = ''general''\<rparr>"

definition sem1_analysis :: analysis where
  \<comment> \<open>\<open>_analyze_question\<close> of a question that names semester 1\<close>
  "sem1_analysis = \<lparr>semesters = [''sem1''], focus = ''general''\<rparr>"

definition big_chunk :: chunk where
  "big_chunk = (1 / 2, replicate 5502 (CHR ''a''), Map.empty)"

definition small_chunk :: chunk where
  "small_chunk = (1 / 2, ''abc'', Map.empty)"

definition electives_chunk :: chunk where
  "electives_chunk = (1 / 10, ''Overview of electives'', Map.empty)"

definition semester1_chunk :: chunk where
  "semester1_chunk = (2 / 10, ''Semester 1 covers C programming'', Map.empty)"

section \<open>Generation client: properties\<close>

lemma count_backend_append: "count_backend (xs @ ys) = count_backend xs + count_backend ys"
  by (simp add: count_backend_def)

lemma count_acquire_append: "count_acquire (xs @ ys) = count_acquire xs + count_acquire ys"
  by (simp add: count_acquire_def)

lemma count_acquire_none: "Acquire \<notin> set evs \<Longrightarrow> count_acquire evs = 0"
  by (induction evs) (auto simp: count_acquire_def)

lemma retry_loop_trace:
  "\<exists>evs. trace (snd (retry_loop be p c left attempt d w)) = trace w @ evs
         \<and> Acquire \<notin> set evs \<and> count_backend evs \<le> left
         \<and> (0 < left \<longrightarrow> 1 \<le> count_backend evs)"
proof (induction left arbitrary: attempt d w)
  case 0
  then show ?case by (simp add: count_backend_def)
next
  case (Suc left)
  let ?w1 = "w\<lparr>trace := trace w @ [GenerateContent p]\<rparr>"
  show ?case
  proof (cases "be attempt p")
    case (Response t)
    then show ?thesis by (simp add: count_backend_def)
  next
    case (Raises exc)
    show ?thesis
    proof (cases "is_transient exc")
      case False
      with Raises show ?thesis by (simp add: count_backend_def)
    next
      case True
      obtain evs where e: "trace (snd (retry_loop be p c left (attempt + 1) (d * 2) (time_sleep d ?w1)))
           = trace (time_sleep d ?w1) @ evs" "Acquire \<notin> set evs" "count_backend evs \<le> left"
        using Suc.IH by blast
      have "trace (snd (retry_loop be p c (Suc left) attempt d w))
          = trace w @ ([GenerateContent p, Sleep d] @ evs)"
        using Raises True e(1) by (simp add: time_sleep_def)
      moreover have "Acquire \<notin> set ([GenerateContent p, Sleep d] @ evs)" using e(2) by simp
      moreover have "count_backend ([GenerateContent p, Sleep d] @ evs) = Suc (count_backend evs)"
        by (simp add: count_backend_def)
      ultimately show ?thesis using e(3) by (metis Suc_le_mono le_add1 plus_1_eq_Suc)
    qed
  qed
qed

lemma acquire_ok:
  assumes "0 < max_per_minute rl"
  shows "\<exists>rl' w' evs. acquire rl w = Inr (rl', w') \<and> trace w' = trace w @ Acquire # evs
           \<and> Acquire \<notin> set evs \<and> count_backend evs = 0"
proof (cases "drop_old exact (clock w) (call_timestamps rl)")
  case Nil
  then show ?thesis using assms by (simp add: acquire_def acquire_timed_def Let_def count_backend_def)
next
  case (Cons t0 ts)
  then show ?thesis
    by (simp add: acquire_def acquire_timed_def Let_def time_sleep_def count_backend_def)
qed



lemma transient_429: "is_transient ''429 Too Many Requests''"
  by (simp add: is_transient_def lower_def py_lower_char_def)



lemma generate_answer_shape:
  assumes "1 \<le> max_per_minute (limiter gs)"
  shows "\<exists>rl w1 evs. acquire (limiter gs) w = Inr (rl, w1)
           \<and> trace w1 = trace w @ Acquire # evs \<and> Acquire \<notin> set evs \<and> count_backend evs = 0
           \<and> generate_answer gs be q ctx w =
               (let context_text = (case ctx of CtxStr s \<Rightarrow> s | CtxList ss \<Rightarrow> join ''\<newline>\<newline>'' ss);
                    res = retry_loop be (build_prompt q context_text) context_text 3 1 1 w1
                in Inr (case fst res of Some r \<Rightarrow> r | None \<Rightarrow> fallback_result,
                        gs\<lparr>limiter := rl\<rparr>, snd res))"
proof -
  have "0 < max_per_minute (limiter gs)" using assms by simp
  from acquire_ok[OF this, of w]
  obtain rl w1 evs where a: "acquire (limiter gs) w = Inr (rl, w1)"
    "trace w1 = trace w @ Acquire # evs" "Acquire \<notin> set evs" "count_backend evs = 0"
    by blast
  have "generate_answer gs be q ctx w =
               (let context_text = (case ctx of CtxStr s \<Rightarrow> s | CtxList ss \<Rightarrow> join ''\<newline>\<newline>'' ss);
                    res = retry_loop be (build_prompt q context_text) context_text 3 1 1 w1
                in Inr (case fst res of Some r \<Rightarrow> r | None \<Rightarrow> fallback_result,
                        gs\<lparr>limiter := rl\<rparr>, snd res))"
    by (simp add: generate_answer_def a(1) Let_def split: prod.splits option.splits)
  then show ?thesis using a by blast
qed

text \<open>
  C10, as amended. The claim as stated fails for an answer that is not empty but
  consists of whitespace only: the test in the source is on the stripped text. Whenever
  the answer text and the context text are both non-empty after stripping whitespace,
  the score is at least 0.8 and the label is "high"; so a label other than "high" needs
  a context or an answer that is empty after stripping.
\<close>

theorem estimate_confidence_high:
  "(strip a \<noteq> [] \<and> strip c \<noteq> [] \<longrightarrow>
      8 / 10 \<le> snd (estimate_confidence a c) \<and> fst (estimate_confidence a c) = ''high'')
   \<and> (fst (estimate_confidence a c) \<noteq> ''high'' \<longrightarrow> strip a = [] \<or> strip c = [])"
  by (auto simp add: estimate_confidence_def Let_def min_def max_def split: if_splits)

theorem estimate_confidence_high_witness:
  "strip ''ok'' \<noteq> [] \<and> strip ''ctx'' \<noteq> []
   \<and> 8 / 10 \<le> snd (estimate_confidence ''ok'' ''ctx'')
   \<and> fst (estimate_confidence ''ok'' ''ctx'') = ''high''
   \<and> fst (estimate_confidence ''ok'' []) \<noteq> ''high'' \<and> strip [] = []"
proof -
  have a: "strip ''ok'' \<noteq> []" and c: "strip ''ctx'' \<noteq> []"
    by (simp_all add: strip_def py_isspace_def)
  have l: "fst (estimate_confidence ''ok'' []) \<noteq> ''high''"
    by (simp add: estimate_confidence_def strip_def py_isspace_def Let_def)
  show ?thesis
    using a c l estimate_confidence_high[of "''ok''" "''ctx''"]
      estimate_confidence_high[of "''ok''" "[]"]
    by (simp add: strip_def)
qed

text \<open>
  C10, counterexample to the claim as stated: the answer text \<open>'' ''\<close> is
  not empty and the context is not empty, yet the score is 0.2 and the label "low".
\<close>

theorem estimate_confidence_whitespace_answer:
  "'' '' \<noteq> [] \<and> ''ctx'' \<noteq> [] \<and> estimate_confidence '' '' ''ctx'' = (''low'', 2 / 10)
   \<and> \<not> (8 / 10 \<le> snd (estimate_confidence '' '' ''ctx''))"
  by (simp add: estimate_confidence_def strip_def py_isspace_def)





text \<open>
  C2, as amended. The claim as stated fails: the acquire step is outside the retry loop.
  With a limiter that admits at least one call per minute, every call of
  \<open>generate_answer\<close> returns, invokes the limiter's acquire step exactly
  once, before the first backend attempt, and makes between one and three backend
  attempts after it.
\<close>

theorem generate_answer_acquires_once:
  assumes "1 \<le> max_per_minute (limiter gs)"
  shows "\<exists>r gs' w' evs. generate_answer gs be q ctx w = Inr (r, gs', w')
           \<and> trace w' = trace w @ Acquire # evs \<and> count_acquire evs = 0
           \<and> 1 \<le> count_backend evs \<and> count_backend evs \<le> 3
           \<and> count_acquire (trace w') = count_acquire (trace w) + 1"
proof -
  define context_text where
    "context_text = (case ctx of CtxStr s \<Rightarrow> s | CtxList ss \<Rightarrow> join ''\<newline>\<newline>'' ss)"
  define p where "p = build_prompt q context_text"
  define res where "res = retry_loop be p context_text 3 1 1"
  obtain rl w1 evs where e: "trace w1 = trace w @ Acquire # evs" "Acquire \<notin> set evs"
      "count_backend evs = 0"
    and g: "generate_answer gs be q ctx w =
       Inr (case fst (res w1) of Some r \<Rightarrow> r | None \<Rightarrow> fallback_result,
            gs\<lparr>limiter := rl\<rparr>, snd (res w1))"
    using generate_answer_shape[OF assms, of w be q ctx]
    unfolding Let_def context_text_def p_def res_def by blast
  obtain evs' where l: "trace (snd (res w1)) = trace w1 @ evs'" "Acquire \<notin> set evs'"
      "count_backend evs' \<le> 3" "1 \<le> count_backend evs'"
    using retry_loop_trace[of be p context_text 3 1 1 w1] unfolding res_def by auto
  have t: "trace (snd (res w1)) = trace w @ Acquire # (evs @ evs')"
    using e(1) l(1) by simp
  have n: "count_acquire (evs @ evs') = 0"
    using e(2) l(2) by (simp add: count_acquire_none)
  have b: "count_backend (evs @ evs') = count_backend evs'"
    using e(3) by (simp add: count_backend_append)
  have a: "count_acquire (trace (snd (res w1))) = count_acquire (trace w) + 1"
    unfolding t using n by (simp add: count_acquire_def)
  show ?thesis using g t n b l(3,4) a by (metis (no_types, lifting))
qed

theorem generate_answer_acquires_once_witness:
  "1 \<le> max_per_minute (limiter gemini0)
   \<and> (\<exists>r gs' w' evs. generate_answer gemini0 always_rate_limited ''q'' (CtxStr ''c'') world0
                         = Inr (r, gs', w')
          \<and> trace w' = trace world0 @ Acquire # evs \<and> count_acquire evs = 0
          \<and> 1 \<le> count_backend evs \<and> count_backend evs \<le> 3
          \<and> count_acquire (trace w') = count_acquire (trace world0) + 1)"
proof -
  have m: "1 \<le> max_per_minute (limiter gemini0)" by (simp add: gemini0_def RateLimiter_def)
  show ?thesis
    using m generate_answer_acquires_once[OF m, where be = always_rate_limited
        and q = "''q''" and ctx = "CtxStr ''c''" and w = world0]
    by blast
qed

text \<open>
  C2, counterexample to the claim as stated: a backend that always answers with a
  rate-limit error is attempted three times in one call of
  \<open>generate_answer\<close>, and the acquire step runs once.
\<close>

theorem generate_answer_three_attempts_one_acquire:
  "generate_answer gemini0 always_rate_limited ''q'' (CtxStr ''c'') world0 =
     Inr (fallback_result, \<lparr>limiter = \<lparr>max_per_minute = 60, call_timestamps = [0]\<rparr>\<rparr>,
          \<lparr>clock = 7,
           trace = [Acquire, GenerateContent (build_prompt ''q'' ''c''), Sleep 1,
                    GenerateContent (build_prompt ''q'' ''c''), Sleep 2,
                    GenerateContent (build_prompt ''q'' ''c''), Sleep 4]\<rparr>)
   \<and> count_backend [Acquire, GenerateContent (build_prompt ''q'' ''c''), Sleep 1,
                    GenerateContent (build_prompt ''q'' ''c''), Sleep 2,
                    GenerateContent (build_prompt ''q'' ''c''), Sleep 4] = 3
   \<and> count_acquire [Acquire, GenerateContent (build_prompt ''q'' ''c''), Sleep 1,
                    GenerateContent (build_prompt ''q'' ''c''), Sleep 2,
                    GenerateContent (build_prompt ''q'' ''c''), Sleep 4] = 1"
proof -
  have "generate_answer gemini0 always_rate_limited ''q'' (CtxStr ''c'') world0 =
     Inr (fallback_result, \<lparr>limiter = \<lparr>max_per_minute = 60, call_timestamps = [0]\<rparr>\<rparr>,
          \<lparr>clock = 7,
           trace = [Acquire, GenerateContent (build_prompt ''q'' ''c''), Sleep 1,
                    GenerateContent (build_prompt ''q'' ''c''), Sleep 2,
                    GenerateContent (build_prompt ''q'' ''c''), Sleep 4]\<rparr>)"
    by (simp add: generate_answer_def gemini0_def world0_def RateLimiter_def acquire_def
          acquire_timed_def exact_def Let_def
          numeral_3_eq_3 always_rate_limited_def transient_429 time_sleep_def)
  then show ?thesis by (simp add: count_backend_def count_acquire_def)
qed

section \<open>Rate limiter: properties\<close>


















section \<open>Session store and orchestrator: properties\<close>

lemma fold_dict_del: "fold dict_del ks ss = filter (\<lambda>(k, v). k \<notin> set ks) ss"
proof (induction ks arbitrary: ss)
  case Nil
  then show ?case by simp
next
  case (Cons k ks)
  have "fold dict_del (k # ks) ss = fold dict_del ks (dict_del k ss)" by simp
  also have "\<dots> = filter (\<lambda>(k', v). k' \<notin> set ks) (dict_del k ss)" by (rule Cons.IH)
  also have "\<dots> = filter (\<lambda>(k', v). k' \<notin> set (k # ks)) ss"
    by (auto simp: dict_del_def case_prod_unfold intro: filter_cong)
  finally show ?case .
qed

lemma prune_sessions_filter:
  assumes "distinct (map fst ss)"
  shows "prune_sessions now ss =
           filter (\<lambda>(sid, msgs). \<not> now - max_default (map get_ts msgs) 0 > SESSION_TTL_SECONDS) ss"
proof -
  let ?old = "\<lambda>x :: string \<times> message list.
                now - max_default (map get_ts (snd x)) 0 > SESSION_TTL_SECONDS"
  have k: "fst x \<notin> fst ` {y \<in> set ss. ?old y} \<longleftrightarrow> \<not> ?old x" if "x \<in> set ss" for x
  proof
    assume "fst x \<notin> fst ` {y \<in> set ss. ?old y}"
    then show "\<not> ?old x" using that by blast
  next
    assume n: "\<not> ?old x"
    show "fst x \<notin> fst ` {y \<in> set ss. ?old y}"
    proof
      assume "fst x \<in> fst ` {y \<in> set ss. ?old y}"
      then obtain y where y: "y \<in> set ss" "?old y" "fst y = fst x" by auto
      have "inj_on fst (set ss)" using assms by (simp add: distinct_map)
      then have "y = x" using y(1,3) that by (auto dest: inj_onD)
      then show False using y(2) n by simp
    qed
  qed
  have "prune_sessions now ss = filter (\<lambda>x. fst x \<notin> fst ` {y \<in> set ss. ?old y}) ss"
    by (simp add: prune_sessions_def fold_dict_del case_prod_unfold)
  also have "\<dots> = filter (\<lambda>x. \<not> ?old x) ss"
    using k by (intro filter_cong) auto
  finally show ?thesis by (simp add: case_prod_unfold)
qed

text \<open>
  C7. For sessions that have messages, pruning removes exactly those whose latest
  message is older than the TTL (\<open>prune_sessions_filter\<close>). Evaluation of
  the source at a freshly created empty session: with the epoch clock at 1700000000,
  \<open>_prune_sessions\<close> takes the missing message timestamp as 0.0 and removes
  the session at once, so the session created by \<open>POST /chat/sessions\<close> is
  not found by \<open>GET /chat/history\<close> one second later;
  \<open>list_sessions\<close> takes the same missing timestamp as the current time.
\<close>

theorem prune_sessions_drops_fresh_empty_session:
  "prune_sessions 1700000000 [(''s1'', [])] = []
   \<and> create_session 1700000000 ''s1'' [] = (''s1'', [(''s1'', [])])
   \<and> history 1700000001 ''s1'' (snd (create_session 1700000000 ''s1'' [])) = (Inl NotFound, [])"
  by (simp add: history_def create_session_def prune_sessions_def SESSION_TTL_SECONDS_def
        dict_del_def)

text \<open>
  C6. For a question that is empty or consists of whitespace only,
  \<open>ask_question\<close> returns the fixed prompt-for-more-input response, with an
  empty sources list and confidence 0.0, and the world it leaves records no further
  search of the vector store and no further call of the rate limiter or of the
  generation backend.
\<close>

theorem ask_question_empty:
  assumes "strip qn = []"
  shows "\<exists>w'. ask_question h svc vs be qn w = Inr (empty_question_response, svc, w')
    \<and> map_of empty_question_response ''answer''
        = Some (RStr ''Please provide a question related to the MCA syllabus.'')
    \<and> map_of empty_question_response ''sources'' = Some (RSources [])
    \<and> map_of empty_question_response ''confidence'' = Some (RFloat 0)
    \<and> trace w' = trace w
    \<and> count_retrieval (trace w') = count_retrieval (trace w)
    \<and> count_acquire (trace w') = count_acquire (trace w)
    \<and> count_backend (trace w') = count_backend (trace w)"
  using assms by (simp add: ask_question_def empty_question_response_def)

theorem ask_question_empty_witness:
  "strip ''  \<newline> '' = []
   \<and> (\<exists>w'. ask_question content_key rag0 empty_store always_rate_limited ''  \<newline> '' world0
               = Inr (empty_question_response, rag0, w')
          \<and> map_of empty_question_response ''sources'' = Some (RSources [])
          \<and> map_of empty_question_response ''confidence'' = Some (RFloat 0)
          \<and> count_retrieval (trace w') = count_retrieval (trace world0)
          \<and> count_backend (trace w') = count_backend (trace world0))"
proof -
  have s: "strip ''  \<newline> '' = []" by (simp add: strip_def py_isspace_def)
  show ?thesis
    using s ask_question_empty[OF s, where h = content_key and svc = rag0 and vs = empty_store
        and be = always_rate_limited and w = world0]
    by blast
qed

lemma ask_question_fields_nonempty:
  assumes "strip qn \<noteq> []" and "ask_question h svc vs be qn w = Inr (r, svc', w')"
  shows "map fst r = [''answer'', ''sources'', ''confidence'', ''confidence_explanation'',
                      ''follow_up'']"
  using assms
  by (auto simp: ask_question_def Let_def insufficient_context_response_def
        split: if_splits prod.splits sum.splits)

text \<open>
  C8. Evaluation of the source at the empty question: the dict returned on that path has
  the three keys \<open>answer\<close>, \<open>sources\<close> and
  \<open>confidence\<close> only; \<open>confidence_explanation\<close> and
  \<open>follow_up\<close>, which the insufficient-context path and the main path do
  return, are missing.
\<close>

theorem ask_question_empty_fields:
  "ask_question h svc vs be [] w = Inr (empty_question_response, svc, w)
   \<and> map fst empty_question_response = [''answer'', ''sources'', ''confidence'']
   \<and> map_of empty_question_response ''confidence_explanation'' = None
   \<and> map_of empty_question_response ''follow_up'' = None
   \<and> map fst insufficient_context_response
       = [''answer'', ''sources'', ''confidence'', ''confidence_explanation'', ''follow_up'']"
  by (simp add: ask_question_def strip_def empty_question_response_def
        insufficient_context_response_def)

section \<open>Context packer: properties\<close>

lemma segment_nonempty: "0 < length (segment_of idx c)"
  by (cases c) (simp add: segment_of_def Let_def)

lemma try_append_full:
  assumes "mx \<le> int (total_chars st)"
  shows "try_append mx idx c st = (False, st)"
proof -
  have "0 < int (length (segment_of idx c))" using segment_nonempty[of idx c] by linarith
  then have "int (total_chars st + length (segment_of idx c)) > mx" using assms by linarith
  then show ?thesis by (simp add: try_append_def Let_def)
qed

lemma pack_loop_full:
  "mx \<le> int (total_chars st) \<Longrightarrow> pack_loop mx an f ics st = st"
proof (induction ics)
  case Nil
  then show ?case by simp
next
  case (Cons ic ics)
  obtain i c where ic: "ic = (i, c)" by (cases ic)
  show ?case using Cons try_append_full[of mx st i c] by (auto simp: ic)
qed

lemma strip_nonempty: "\<not> py_isspace c \<Longrightarrow> strip (c # cs) \<noteq> []"
  by (simp add: strip_def dropWhile_append)

lemma preamble_strip_nonempty: "strip (preamble an) \<noteq> []"
  by (simp add: preamble_def strip_nonempty py_isspace_def)

lemma pack_full:
  "mx \<le> int (length (preamble an)) \<Longrightarrow>
   pack mx an items = \<lparr>context_parts = [preamble an], sources = [], total_chars = length (preamble an)\<rparr>"
  by (simp add: pack_def Let_def pack_loop_full)

lemma try_append_cases:
  "try_append mx i c st = (False, st) \<or>
   try_append mx i c st = (True, st\<lparr>context_parts := context_parts st @ [segment_of i c],
                        total_chars := total_chars st + length (segment_of i c),
                        sources := sources st @ [source_of i c]\<rparr>)"
  by (simp add: try_append_def Let_def)

lemma pack_loop_index_sorted:
  "sorted_wrt (<) (map fst ics) \<Longrightarrow> sorted_wrt (<) (map index (sources st)) \<Longrightarrow>
   (\<forall>s\<in>set (sources st). \<forall>ic\<in>set ics. index s < fst ic) \<Longrightarrow>
   sorted_wrt (<) (map index (sources (pack_loop mx an f ics st)))"
proof (induction ics arbitrary: st)
  case Nil
  then show ?case by simp
next
  case (Cons ic ics)
  obtain i c where ic: "ic = (i, c)" by (cases ic)
  have rest: "sorted_wrt (<) (map fst ics)" using Cons.prems(1) by simp
  have later: "\<forall>jc\<in>set ics. i < fst jc" using Cons.prems(1) by (auto simp: ic)
  show ?case
  proof (cases "f \<and> \<not> context_mentions_semester an (fst (snd c))")
    case True
    then show ?thesis using Cons.IH[OF rest Cons.prems(2)] Cons.prems(3) by (auto simp: ic)
  next
    case False
    from try_append_cases[of mx i c st] show ?thesis
    proof
      assume "try_append mx i c st = (False, st)"
      then show ?thesis using False Cons.prems(2) by (auto simp: ic)
    next
      let ?st' = "st\<lparr>context_parts := context_parts st @ [segment_of i c],
                        total_chars := total_chars st + length (segment_of i c),
                        sources := sources st @ [source_of i c]\<rparr>"
      assume t: "try_append mx i c st = (True, ?st')"
      have a: "sorted_wrt (<) (map index (sources ?st'))"
        using Cons.prems(2,3) by (cases c) (auto simp: sorted_wrt_append ic source_of_def)
      have b: "\<forall>s\<in>set (sources ?st'). \<forall>jc\<in>set ics. index s < fst jc"
        using Cons.prems(3) later by (cases c) (auto simp: source_of_def)
      show ?thesis using False t Cons.IH[OF rest a b] by (auto simp: ic)
    qed
  qed
qed

lemma pack_loop_sources_from:
  "s \<in> set (sources (pack_loop mx an f ics st)) \<Longrightarrow>
   s \<in> set (sources st) \<or> (\<exists>ic\<in>set ics. s = source_of (fst ic) (snd ic))"
proof (induction ics arbitrary: st)
  case Nil
  then show ?case by simp
next
  case (Cons ic ics)
  obtain i c where ic: "ic = (i, c)" by (cases ic)
  show ?case
  proof (cases "f \<and> \<not> context_mentions_semester an (fst (snd c))")
    case True
    then show ?thesis using Cons.IH[of st] Cons.prems by (auto simp: ic)
  next
    case False
    from try_append_cases[of mx i c st] show ?thesis
    proof
      assume "try_append mx i c st = (False, st)"
      then show ?thesis using False Cons.prems by (auto simp: ic)
    next
      let ?st' = "st\<lparr>context_parts := context_parts st @ [segment_of i c],
                        total_chars := total_chars st + length (segment_of i c),
                        sources := sources st @ [source_of i c]\<rparr>"
      assume t: "try_append mx i c st = (True, ?st')"
      then have "s \<in> set (sources (pack_loop mx an f ics ?st'))"
        using False Cons.prems by (auto simp: ic)
      from Cons.IH[OF this] show ?thesis by (auto simp: ic)
    qed
  qed
qed

lemma index_source_of: "index (source_of i c) = i"
  by (cases c) (simp add: source_of_def)

lemma pack_loop_unfiltered:
  "\<exists>k\<le>length items. map index (sources (pack_loop mx an False (zip [a ..< a + length items] items) st))
       = map index (sources st) @ [a ..< a + k]"
proof (induction items arbitrary: a st)
  case Nil
  then show ?case by simp
next
  case (Cons c items)
  have z: "zip [a ..< a + length (c # items)] (c # items)
             = (a, c) # zip [Suc a ..< Suc a + length items] items"
    by (simp add: upt_conv_Cons del: upt_Suc)
  from try_append_cases[of mx a c st] show ?case
  proof
    assume "try_append mx a c st = (False, st)"
    then have "map index (sources (pack_loop mx an False (zip [a ..< a + length (c # items)] (c # items)) st))
       = map index (sources st) @ [a ..< a + 0]"
      by (simp only: z) simp
    then show ?thesis by blast
  next
    let ?st' = "st\<lparr>context_parts := context_parts st @ [segment_of a c],
                        total_chars := total_chars st + length (segment_of a c),
                        sources := sources st @ [source_of a c]\<rparr>"
    assume t: "try_append mx a c st = (True, ?st')"
    obtain k where k: "k \<le> length items"
      "map index (sources (pack_loop mx an False (zip [Suc a ..< Suc a + length items] items) ?st'))
         = map index (sources ?st') @ [Suc a ..< Suc a + k]"
      using Cons.IH[of "Suc a" ?st'] by blast
    have "map index (sources (pack_loop mx an False (zip [a ..< a + length (c # items)] (c # items)) st))
       = map index (sources st) @ [a ..< a + Suc k]"
      using t k(2) by (simp only: z) (simp add: index_source_of upt_conv_Cons)
    then show ?thesis using k(1) by (metis Suc_le_mono length_Cons)
  qed
qed

lemma enumerate1_fst: "map fst (enumerate1 items) = [1 ..< Suc (length items)]"
  by (simp add: enumerate1_def)

lemma enumerate1_sorted: "sorted_wrt (<) (map fst (enumerate1 items))"
  unfolding enumerate1_fst by (rule sorted_wrt_upt)

lemma enumerate1_mem:
  assumes "ic \<in> set (enumerate1 items)"
  shows "1 \<le> fst ic \<and> fst ic \<le> length items \<and> snd ic = items ! (fst ic - 1)"
proof -
  obtain n where n: "n < length items" "ic = ([1 ..< Suc (length items)] ! n, items ! n)"
    using assms by (auto simp: enumerate1_def in_set_zip)
  have "[1 ..< Suc (length items)] ! n = Suc n" using n(1) by (simp del: upt_Suc)
  then show ?thesis using n by simp
qed

lemma pack_sources_shape:
  "\<exists>f st. sources st = [] \<and> (semesters an = [] \<longrightarrow> \<not> f)
          \<and> sources (pack mx an items) = sources (pack_loop mx an f (enumerate1 items) st)"
proof -
  let ?st0 = "\<lparr>context_parts = [preamble an], sources = [], total_chars = length (preamble an)\<rparr>"
  show ?thesis
  proof (cases "semesters an = []")
    case True
    then have "sources (pack mx an items) = sources (pack_loop mx an False (enumerate1 items) ?st0)"
      by (simp add: pack_def Let_def)
    moreover have "sources ?st0 = []" by simp
    ultimately show ?thesis by blast
  next
    case False
    let ?st1 = "pack_loop mx an True (enumerate1 items) ?st0"
    show ?thesis
    proof (cases "sources ?st1 = []")
      case True
      then have "sources (pack mx an items) = sources (pack_loop mx an False (enumerate1 items) ?st1)"
        using False by (simp add: pack_def Let_def)
      then show ?thesis using True False by blast
    next
      case nonempty: False
      then have "sources (pack mx an items) = sources ?st1"
        using False by (simp add: pack_def Let_def)
      moreover have "sources ?st0 = []" by simp
      ultimately show ?thesis using False by blast
    qed
  qed
qed

lemma pack_index_sorted: "sorted_wrt (<) (map index (sources (pack mx an items)))"
proof -
  obtain f st where p: "sources st = []"
    "sources (pack mx an items) = sources (pack_loop mx an f (enumerate1 items) st)"
    using pack_sources_shape by blast
  have "sorted_wrt (<) (map index (sources (pack_loop mx an f (enumerate1 items) st)))"
    by (rule pack_loop_index_sorted[OF enumerate1_sorted]) (simp_all add: p(1))
  then show ?thesis by (simp add: p(2))
qed

lemma pack_sources_rank:
  assumes "s \<in> set (sources (pack mx an items))"
  shows "1 \<le> index s \<and> index s \<le> length items \<and> s = source_of (index s) (items ! (index s - 1))"
proof -
  obtain f st where p: "sources st = []"
    "sources (pack mx an items) = sources (pack_loop mx an f (enumerate1 items) st)"
    using pack_sources_shape by blast
  have "s \<in> set (sources (pack_loop mx an f (enumerate1 items) st))" using assms p(2) by simp
  from pack_loop_sources_from[OF this]
  obtain ic where ic: "ic \<in> set (enumerate1 items)" "s = source_of (fst ic) (snd ic)"
    using p(1) by auto
  have "index s = fst ic" using ic(2) by (simp add: index_source_of)
  then show ?thesis using enumerate1_mem[OF ic(1)] ic(2) by simp
qed

lemma pack_unfiltered_contiguous:
  assumes "semesters an = []"
  shows "map index (sources (pack mx an items)) = [1 ..< Suc (length (sources (pack mx an items)))]"
proof -
  obtain f st where p: "sources st = []" "\<not> f"
    "sources (pack mx an items) = sources (pack_loop mx an f (enumerate1 items) st)"
    using pack_sources_shape[of an] assms by blast
  obtain k where k: "map index (sources (pack_loop mx an False (zip [1 ..< 1 + length items] items) st))
       = map index (sources st) @ [1 ..< 1 + k]"
    using pack_loop_unfiltered[of items mx an 1 st] by blast
  have e: "enumerate1 items = zip [1 ..< 1 + length items] items" by (simp add: enumerate1_def)
  have m: "map index (sources (pack mx an items)) = [1 ..< Suc k]"
    using p k by (simp add: e)
  have "length (map index (sources (pack mx an items))) = k"
    unfolding m by simp
  then have "length (sources (pack mx an items)) = k" by simp
  then show ?thesis using m by simp
qed

lemma strip_append_newline:
  assumes "xs \<noteq> []" and "\<not> py_isspace (hd xs)" and "\<not> py_isspace (last xs)"
  shows "strip (xs @ ''\<newline>'') = xs"
proof -
  obtain a as where xs: "xs = a # as" using assms(1) by (cases xs) auto
  have front: "dropWhile py_isspace (xs @ ''\<newline>'') = xs @ ''\<newline>''"
    using assms(2) by (simp add: xs)
  have ws: "list_all py_isspace ''\<newline>''" by (simp add: py_isspace_def)
  obtain bs b where bs: "xs = bs @ [b]" using assms(1) by (metis rev_exhaust)
  have "\<not> py_isspace b" using assms(3) bs by simp
  then have rear: "dropWhile py_isspace (rev (xs @ ''\<newline>'')) = rev xs"
    using ws by (simp add: bs)
  show ?thesis unfolding strip_def front rear by simp
qed

lemma segment_header:
  "\<exists>rest. segment_of idx c =
           ''['' @ str_nat idx @ ''] Source: '' @ py_str (chunk_name (snd (snd c))) @ rest"
  by (cases c) (simp add: segment_of_def Let_def del: str_nat.simps)

lemma name_source_of: "name (source_of i c) = chunk_name (snd (snd c))"
  by (cases c) (simp add: source_of_def)

lemma pack_loop_parts:
  assumes "\<forall>ic\<in>set ics. snd ic = items ! (fst ic - 1)"
    and "context_parts st = pre # map (cited_segment items) (sources st)"
  shows "context_parts (pack_loop mx an f ics st)
           = pre # map (cited_segment items) (sources (pack_loop mx an f ics st))"
  using assms
proof (induction ics arbitrary: st)
  case Nil
  then show ?case by simp
next
  case (Cons ic ics)
  obtain i c where ic: "ic = (i, c)" by (cases ic)
  have c: "c = items ! (i - 1)" using Cons.prems(1) ic by simp
  have rest: "\<forall>ic\<in>set ics. snd ic = items ! (fst ic - 1)" using Cons.prems(1) by simp
  show ?case
  proof (cases "f \<and> \<not> context_mentions_semester an (fst (snd c))")
    case True
    then show ?thesis using Cons.IH[OF rest Cons.prems(2)] by (auto simp: ic)
  next
    case False
    from try_append_cases[of mx i c st] show ?thesis
    proof
      assume "try_append mx i c st = (False, st)"
      then show ?thesis using False Cons.prems(2) by (auto simp: ic)
    next
      let ?st' = "st\<lparr>context_parts := context_parts st @ [segment_of i c],
                        total_chars := total_chars st + length (segment_of i c),
                        sources := sources st @ [source_of i c]\<rparr>"
      assume t: "try_append mx i c st = (True, ?st')"
      have "cited_segment items (source_of i c) = segment_of i c"
        using c by (simp add: cited_segment_def index_source_of)
      then have a: "context_parts ?st' = pre # map (cited_segment items) (sources ?st')"
        using Cons.prems(2) by simp
      show ?thesis using False t Cons.IH[OF rest a] by (auto simp: ic)
    qed
  qed
qed

lemma enumerate1_snd: "\<forall>ic\<in>set (enumerate1 items). snd ic = items ! (fst ic - 1)"
  using enumerate1_mem by blast

lemma pack_parts:
  "\<exists>tail. (tail = [] \<or> tail = [summary_text (sources (pack mx an items))])
     \<and> context_parts (pack mx an items)
         = preamble an # map (cited_segment items) (sources (pack mx an items)) @ tail"
proof -
  define st0 where
    "st0 = \<lparr>context_parts = [preamble an], sources = [], total_chars = length (preamble an)\<rparr>"
  define flt where "flt = (semesters an \<noteq> [])"
  define st1 where "st1 = pack_loop mx an flt (enumerate1 items) st0"
  define st2 where
    "st2 = (if flt \<and> sources st1 = [] then pack_loop mx an False (enumerate1 items) st1 else st1)"
  have p0: "context_parts st0 = preamble an # map (cited_segment items) (sources st0)"
    by (simp add: st0_def)
  have p1: "context_parts st1 = preamble an # map (cited_segment items) (sources st1)"
    unfolding st1_def by (rule pack_loop_parts[OF enumerate1_snd p0])
  have p2: "context_parts st2 = preamble an # map (cited_segment items) (sources st2)"
  proof (cases "flt \<and> sources st1 = []")
    case True
    then have "st2 = pack_loop mx an False (enumerate1 items) st1" by (simp add: st2_def)
    then show ?thesis using pack_loop_parts[OF enumerate1_snd p1] by simp
  next
    case False
    then have "st2 = st1" by (auto simp: st2_def)
    then show ?thesis using p1 by simp
  qed
  have e: "pack mx an items =
             (if sources st2 \<noteq> [] \<and>
                 int (total_chars st2 + length (summary_text (sources st2))) \<le> mx
              then st2\<lparr>context_parts := context_parts st2 @ [summary_text (sources st2)]\<rparr>
              else st2)"
    by (simp only: pack_def Let_def st2_def st1_def flt_def st0_def)
  show ?thesis
  proof (cases "sources st2 \<noteq> [] \<and>
                 int (total_chars st2 + length (summary_text (sources st2))) \<le> mx")
    case True
    then have "pack mx an items
        = st2\<lparr>context_parts := context_parts st2 @ [summary_text (sources st2)]\<rparr>"
      using e by simp
    then have "sources (pack mx an items) = sources st2"
      and "context_parts (pack mx an items) = context_parts st2 @ [summary_text (sources st2)]"
      by simp_all
    then show ?thesis using p2 by auto
  next
    case False
    then have "pack mx an items = st2" using e by auto
    then show ?thesis using p2 by auto
  qed
qed

lemma cited_segment_header:
  assumes "s = source_of (index s) (items ! (index s - 1))"
  shows "\<exists>rest. cited_segment items s =
           ''['' @ str_nat (index s) @ ''] Source: '' @ py_str (name s) @ rest"
proof -
  have "name s = chunk_name (snd (snd (items ! (index s - 1))))"
    using assms name_source_of by metis
  then show ?thesis
    unfolding cited_segment_def
    using segment_header[of "index s" "items ! (index s - 1)"] by simp
qed

lemma build_context_full:
  assumes "retrieved \<noteq> []" and "mx \<le> int (length (preamble an))"
  shows "build_context h mx retrieved an = (strip (preamble an), [])"
  using assms by (simp add: build_context_def Let_def pack_full)

lemma preamble_general_length: "length (preamble general_analysis) = 412"
  by (simp add: preamble_def general_analysis_def generate_mca_context_prompt_def)

lemma strip_preamble_general_length: "length (strip (preamble general_analysis)) = 411"
  by (simp add: preamble_def general_analysis_def generate_mca_context_prompt_def strip_def
        py_isspace_def)

lemma sorted_items_single: "sorted_items h [c] = [c]"
  by (simp add: sorted_items_def dedup_def dedup_step_def)

lemma enumerate1_single: "enumerate1 [c] = [(Suc 0, c)]"
  by (simp add: enumerate1_def)

lemma chunk_name_default: "chunk_name Map.empty = PStr ''document''"
  by (simp add: chunk_name_def dict_get_def py_or_def truthy_def)

lemma chunk_page_default: "chunk_page Map.empty = PNone"
  by (simp add: chunk_page_def dict_get_def py_or_def truthy_def)

lemma format_4f_half: "format_4f (1 / 2) = ''0.5000''"
  by (simp add: format_4f_def round_half_even_def digit_char_def Let_def)

lemma str_nat_one: "str_nat (Suc 0) = ''1''"
  by (simp add: digit_char_def)

lemma segment_default:
  "segment_of (Suc 0) (1 / 2, content, Map.empty) =
     ''[1] Source: document (score: 0.5000)\<newline>'' @ content @ ''\<newline>''"
  by (simp add: segment_of_def chunk_name_default chunk_page_default format_4f_half str_nat_one
        py_str_def del: str_nat.simps)

lemma source_default:
  "source_of (Suc 0) (1 / 2, content, Map.empty) =
     \<lparr>index = Suc 0, name = PStr ''document'', page = PNone, score = 1 / 2\<rparr>"
  by (simp add: source_of_def chunk_name_default chunk_page_default)

lemma summary_default:
  "summary_text [\<lparr>index = Suc 0, name = PStr ''document'', page = PNone, score = 1 / 2\<rparr>]
     = ''Document coverage:\<newline>- document: 1 context blocks'' @ ''\<newline>''"
  by (simp add: summary_text_def doc_counts_def py_str_def str_nat_one del: str_nat.simps)

lemma big_chunk_length: "length (segment_of (Suc 0) big_chunk) = 5540"
  unfolding big_chunk_def segment_default by simp

lemma pack_big:
  "context_parts (pack 6000 general_analysis [big_chunk]) =
     [preamble general_analysis, segment_of (Suc 0) big_chunk,
      ''Document coverage:\<newline>- document: 1 context blocks'' @ ''\<newline>'']"
proof -
  let ?st0 = "\<lparr>context_parts = [preamble general_analysis], sources = [],
               total_chars = length (preamble general_analysis)\<rparr>"
  let ?st1 = "\<lparr>context_parts = [preamble general_analysis, segment_of (Suc 0) big_chunk],
               sources = [source_of (Suc 0) big_chunk], total_chars = 5952\<rparr>"
  have s: "semesters general_analysis = []" by (simp add: general_analysis_def)
  have t: "try_append 6000 (Suc 0) big_chunk ?st0 = (True, ?st1)"
    by (simp add: try_append_def Let_def big_chunk_length preamble_general_length)
  have p: "pack_loop 6000 general_analysis False (enumerate1 [big_chunk]) ?st0 = ?st1"
    unfolding enumerate1_single by (simp add: t)
  have e: "summary_text (sources ?st1)
             = ''Document coverage:\<newline>- document: 1 context blocks'' @ ''\<newline>''"
    by (simp add: big_chunk_def source_default summary_default)
  have sm: "length (summary_text (sources ?st1)) = 48"
    unfolding e by simp
  have "pack 6000 general_analysis [big_chunk] =
          ?st1\<lparr>context_parts := context_parts ?st1 @ [summary_text (sources ?st1)]\<rparr>"
    using sm by (simp add: pack_def Let_def s p)
  then show ?thesis using e by simp
qed

text \<open>
  C1. Evaluation of the source at one retrieved chunk of 5502 characters with the default
  budget of 6000: the preamble (412 characters), the chunk segment (5540) and the summary
  (48) are counted as exactly 6000 and all three are packed, but the parts are then joined
  with newline separators that were not counted, so the returned text has 6001
  characters.
\<close>

theorem build_context_over_budget:
  "length (fst (build_context h 6000 [big_chunk] general_analysis)) = 6001
   \<and> \<not> int (length (fst (build_context h 6000 [big_chunk] general_analysis))) \<le> 6000"
proof -
  let ?T = "preamble general_analysis @ ''\<newline>'' @ segment_of (Suc 0) big_chunk @ ''\<newline>'' @
            ''Document coverage:\<newline>- document: 1 context blocks''"
  have t: "fst (build_context h 6000 [big_chunk] general_analysis) = strip (?T @ ''\<newline>'')"
    by (simp add: build_context_def sorted_items_single pack_big Let_def)
  have first: "\<not> py_isspace (hd ?T)" by (simp add: preamble_def py_isspace_def)
  have final: "\<not> py_isspace (last ?T)" by (simp add: py_isspace_def)
  have n: "?T \<noteq> []" by (simp add: preamble_def)
  have len: "length ?T = 6001" by (simp add: preamble_general_length big_chunk_length)
  have "length (fst (build_context h 6000 [big_chunk] general_analysis)) = 6001"
    unfolding t strip_append_newline[OF n first final] by (rule len)
  then show ?thesis by simp
qed

text \<open>
  C4, as amended. The claim as stated fails: the index of a source is its position in the
  ranked list, and the semester filter skips ranked chunks without renumbering. In every
  bundle made from a non-empty chunk list, the text is the stripped newline-join of the
  preamble, one segment per source in the order of the sources sequence, and possibly the
  trailing summary. The segment of each source begins with the citation header
  \<open>[k] Source: name\<close>, where \<open>k\<close> is the index of that source and \<open>name\<close> its name. The
  index of a source is the 1-based position of its chunk in the deduplicated list sorted by
  score; the indices are strictly increasing along the sources sequence; and when the
  analysis names no semester, so that no chunk is skipped, they are exactly 1, 2, ..., n.
\<close>

theorem build_context_indices:
  "sorted_wrt (<) (map index (snd (build_context h mx retrieved an)))
   \<and> (\<forall>s\<in>set (snd (build_context h mx retrieved an)).
         1 \<le> index s \<and> index s \<le> length (sorted_items h retrieved)
         \<and> s = source_of (index s) (sorted_items h retrieved ! (index s - 1))
         \<and> (\<exists>rest. cited_segment (sorted_items h retrieved) s =
                      ''['' @ str_nat (index s) @ ''] Source: '' @ py_str (name s) @ rest))
   \<and> (retrieved \<noteq> [] \<longrightarrow>
         (\<exists>tail. (tail = [] \<or> tail = [summary_text (snd (build_context h mx retrieved an))])
            \<and> fst (build_context h mx retrieved an) =
                strip (join ''\<newline>''
                  (preamble an #
                   map (cited_segment (sorted_items h retrieved))
                     (snd (build_context h mx retrieved an)) @ tail))))
   \<and> (semesters an = [] \<longrightarrow>
         map index (snd (build_context h mx retrieved an))
           = [1 ..< Suc (length (snd (build_context h mx retrieved an)))])"
proof (cases "retrieved = []")
  case True
  then show ?thesis by (simp add: build_context_def)
next
  case False
  define items where "items = sorted_items h retrieved"
  have e: "snd (build_context h mx retrieved an) = sources (pack mx an items)"
    using False by (simp add: build_context_def Let_def items_def)
  have t: "fst (build_context h mx retrieved an)
             = strip (join ''\<newline>'' (context_parts (pack mx an items)))"
    using False by (simp add: build_context_def Let_def items_def)
  have rank: "1 \<le> index s \<and> index s \<le> length items
              \<and> s = source_of (index s) (items ! (index s - 1))
              \<and> (\<exists>rest. cited_segment items s =
                           ''['' @ str_nat (index s) @ ''] Source: '' @ py_str (name s) @ rest)"
    if "s \<in> set (sources (pack mx an items))" for s
    using pack_sources_rank[OF that] cited_segment_header[of s items] by blast
  obtain tail where tail: "tail = [] \<or> tail = [summary_text (sources (pack mx an items))]"
    "context_parts (pack mx an items)
       = preamble an # map (cited_segment items) (sources (pack mx an items)) @ tail"
    using pack_parts[of mx an items] by blast
  have body: "\<exists>tail. (tail = [] \<or> tail = [summary_text (sources (pack mx an items))])
            \<and> strip (join ''\<newline>'' (context_parts (pack mx an items))) =
                strip (join ''\<newline>''
                  (preamble an # map (cited_segment items) (sources (pack mx an items)) @ tail))"
    using tail by metis
  show ?thesis
    unfolding e t items_def[symmetric]
    using pack_index_sorted[of mx an items] rank body pack_unfiltered_contiguous[of an mx items]
    by blast
qed

theorem build_context_indices_witness:
  "semesters general_analysis = [] \<and> [semester1_chunk, electives_chunk] \<noteq> []
   \<and> snd (build_context content_key 6000 [semester1_chunk, electives_chunk] general_analysis)
       = [source_of 1 electives_chunk, source_of 2 semester1_chunk]
   \<and> map index (snd (build_context content_key 6000 [semester1_chunk, electives_chunk]
                        general_analysis)) = [1, 2]
   \<and> (\<exists>tail. fst (build_context content_key 6000 [semester1_chunk, electives_chunk]
                     general_analysis) =
                strip (join ''\<newline>''
                  (preamble general_analysis #
                   map (cited_segment (sorted_items content_key
                                         [semester1_chunk, electives_chunk]))
                     [source_of 1 electives_chunk, source_of 2 semester1_chunk] @ tail)))"
proof -
  have s: "semesters general_analysis = []" by (simp add: general_analysis_def)
  have n: "[semester1_chunk, electives_chunk] \<noteq> []" by simp
  have v: "snd (build_context content_key 6000 [semester1_chunk, electives_chunk] general_analysis)
       = [source_of 1 electives_chunk, source_of 2 semester1_chunk]"
    by code_simp
  have i: "map index [source_of 1 electives_chunk, source_of 2 semester1_chunk] = [1, 2]"
    by (simp add: index_source_of)
  from build_context_indices[where h = content_key and mx = 6000
        and retrieved = "[semester1_chunk, electives_chunk]" and an = general_analysis] n
  have "\<exists>tail. fst (build_context content_key 6000 [semester1_chunk, electives_chunk]
                     general_analysis) =
                strip (join ''\<newline>''
                  (preamble general_analysis #
                   map (cited_segment (sorted_items content_key
                                         [semester1_chunk, electives_chunk]))
                     (snd (build_context content_key 6000 [semester1_chunk, electives_chunk]
                             general_analysis)) @ tail))"
    by blast
  then show ?thesis using s n v i by simp
qed

text \<open>
  C4, counterexample to the claim as stated: for a question about semester 1 the
  better-ranked chunk does not mention the semester and is skipped, so the only packed
  source, first in the packing order, carries index 2.
\<close>

theorem build_context_index_gap:
  "map index (snd (build_context content_key 6000 [electives_chunk, semester1_chunk]
                     sem1_analysis)) = [2]"
  by code_simp

text \<open>
  C9, as amended. The claim as stated fails in its second half. For an empty chunk list
  the bundle has empty text and no sources. When the list is not empty and the preamble
  alone fills the budget, no chunk is packed and the sources are empty, but the text is
  the preamble without its final newline, which is not empty.
\<close>

theorem build_context_empty_or_full:
  "(retrieved = [] \<longrightarrow> build_context h mx retrieved an = ([], []))
   \<and> (retrieved \<noteq> [] \<and> mx \<le> int (length (preamble an)) \<longrightarrow>
        build_context h mx retrieved an = (strip (preamble an), [])
        \<and> strip (preamble an) \<noteq> [])"
  by (simp add: build_context_def Let_def pack_full preamble_strip_nonempty)

theorem build_context_empty_or_full_witness:
  "build_context content_key 6000 [] general_analysis = ([], [])
   \<and> [small_chunk] \<noteq> [] \<and> 10 \<le> int (length (preamble general_analysis))
   \<and> build_context content_key 10 [small_chunk] general_analysis
       = (strip (preamble general_analysis), [])
   \<and> strip (preamble general_analysis) \<noteq> []"
proof -
  have a: "10 \<le> int (length (preamble general_analysis))"
    by (simp add: preamble_general_length)
  show ?thesis
    using a
      build_context_empty_or_full[where h = content_key and mx = 6000 and retrieved = "[]"
        and an = general_analysis]
      build_context_empty_or_full[where h = content_key and mx = 10
        and retrieved = "[small_chunk]" and an = general_analysis]
    by simp
qed

text \<open>
  C9, counterexample to the claim as stated: with a budget of 10 characters the preamble
  (412 characters) fills the budget, no chunk is packed, and the returned text has 411
  characters.
\<close>

theorem build_context_preamble_only:
  "10 \<le> int (length (preamble general_analysis))
   \<and> snd (build_context content_key 10 [small_chunk] general_analysis) = []
   \<and> length (fst (build_context content_key 10 [small_chunk] general_analysis)) = 411
   \<and> fst (build_context content_key 10 [small_chunk] general_analysis) \<noteq> []"
proof -
  have a: "10 \<le> int (length (preamble general_analysis))"
    by (simp add: preamble_general_length)
  have n: "[small_chunk] \<noteq> []" by simp
  show ?thesis
    unfolding build_context_full[OF n a]
    using a by (simp add: strip_preamble_general_length preamble_strip_nonempty)
qed

end
